theory Spec2Isabelle
  imports Complex_Main
begin

section \<open>JavaScript values used by lib/domain.js\<close>

text \<open>
  The functions of \<^verbatim>\<open>Domain.prototype\<close> take and pass on untyped JavaScript values. The
  fragment used by the module: \<^verbatim>\<open>undefined\<close>, \<^verbatim>\<open>null\<close>, booleans, integer-valued numbers,
  \<^verbatim>\<open>NaN\<close>, strings, functions (the module's own \<^verbatim>\<open>noop\<close> or a caller's function) and
  \<^verbatim>\<open>Error\<close> objects.
\<close>

datatype fn = Noop | Fn nat

datatype jsval =
    JUndefined
  | JNull
  | JBool bool
  | JNum int
  | JNaN
  | JStr string
  | JFun fn
  | JError string

text \<open>ToBoolean, as used by \<^verbatim>\<open>if (x)\<close>, \<^verbatim>\<open>x ? a : b\<close> and \<^verbatim>\<open>x || y\<close>.\<close>

fun truthy :: "jsval \<Rightarrow> bool" where
  "truthy JUndefined = False"
| "truthy JNull = False"
| "truthy (JBool b) = b"
| "truthy (JNum n) = (n \<noteq> 0)"
| "truthy JNaN = False"
| "truthy (JStr s) = (s \<noteq> [])"
| "truthy (JFun f) = True"
| "truthy (JError m) = True"

text \<open>\<^verbatim>\<open>a || b\<close>\<close>

definition js_or :: "jsval \<Rightarrow> jsval \<Rightarrow> jsval" where
  "js_or a b = (if truthy a then a else b)"

text \<open>\<^verbatim>\<open>typeof v == 'function'\<close>\<close>

fun is_function :: "jsval \<Rightarrow> bool" where
  "is_function (JFun f) = True"
| "is_function v = False"

text \<open>
  An object literal or a tracker response is a list of fields in the order written;
  reading a field that is not there gives \<^verbatim>\<open>undefined\<close>.
\<close>

type_synonym jsobj = "(string \<times> jsval) list"

definition obj_get :: "jsobj \<Rightarrow> string \<Rightarrow> jsval" where
  "obj_get obj k = (case map_of obj k of None \<Rightarrow> JUndefined | Some v \<Rightarrow> v)"

subsection \<open>Numbers and strings\<close>

text \<open>
  A character is a code unit below 256. The decimal text of a number, as \<^verbatim>\<open>'path' + i\<close>
  builds it: the loop counter is a positive integer far below \<open>10\<^sup>2\<^sup>1\<close>, written without
  sign, exponent or leading zero.
\<close>

definition digit_char :: "nat \<Rightarrow> char" where
  "digit_char d = char_of (48 + d)"

function dec :: "nat \<Rightarrow> string" where
  "dec n = (if n < 10 then [digit_char n] else dec (n div 10) @ [digit_char (n mod 10)])"
  by pat_completeness auto
termination
  by (relation "measure id") auto

definition num_to_string :: "int \<Rightarrow> string" where
  "num_to_string i = (if i < 0 then CHR ''-'' # dec (nat (- i)) else dec (nat i))"

text \<open>
  A Number is \<^verbatim>\<open>NaN\<close>, an infinity or a finite double, held as the rational it denotes
  (the sign of zero plays no part in this module).
\<close>

datatype jsnum = NaN | PInf | NInf | Fin rat

definition pow2 :: "int \<Rightarrow> rat" where
  "pow2 k = (if 0 \<le> k then 2 ^ nat k else 1 / 2 ^ nat (- k))"

definition pow10 :: "int \<Rightarrow> rat" where
  "pow10 k = (if 0 \<le> k then 10 ^ nat k else 1 / 10 ^ nat (- k))"

text \<open>\<open>\<lfloor>log\<^sub>2 n\<rfloor>\<close> for \<open>n \<ge> 1\<close>.\<close>

function ilog2 :: "int \<Rightarrow> int" where
  "ilog2 n = (if n < 2 then 0 else ilog2 (n div 2) + 1)"
  by pat_completeness auto
termination
  by (relation "measure nat") auto

text \<open>For \<open>q > 0\<close>, the \<open>e\<close> with \<open>2\<^sup>e \<le> q < 2\<^sup>e\<^sup>+\<^sup>1\<close>.\<close>

definition binary_exponent :: "rat \<Rightarrow> int" where
  "binary_exponent q =
     (if 1 \<le> q then ilog2 \<lfloor>q\<rfloor> else - (ilog2 (\<lceil>1 / q\<rceil> - 1) + 1))"

definition round_half_even :: "rat \<Rightarrow> int" where
  "round_half_even t =
     (let f = \<lfloor>t\<rfloor>; d = t - of_int f
      in if d < 1 / 2 then f else if 1 / 2 < d then f + 1 else if even f then f else f + 1)"

text \<open>
  The double nearest to a positive rational, ties to even: 53 significant bits, down to
  the subnormal step \<open>2\<^sup>-\<^sup>1\<^sup>0\<^sup>7\<^sup>4\<close>. The result is infinite when it would reach \<open>2\<^sup>1\<^sup>0\<^sup>2\<^sup>4\<close>: when
  the binary exponent is 1024 or more, or is 1023 and the significand rounds up to \<open>2\<^sup>5\<^sup>3\<close>.
\<close>

definition round_pos :: "rat \<Rightarrow> jsnum" where
  "round_pos q =
     (let e = binary_exponent q
      in if 1024 \<le> e then PInf
         else let p = max (e - 52) (- 1074);
                  m = round_half_even (q / pow2 p)
              in if e = 1023 \<and> m = 9007199254740992 then PInf
                 else Fin (of_int m * pow2 p))"

fun negate :: "jsnum \<Rightarrow> jsnum" where
  "negate NaN = NaN"
| "negate PInf = NInf"
| "negate NInf = PInf"
| "negate (Fin r) = Fin (- r)"

definition to_double :: "rat \<Rightarrow> jsnum" where
  "to_double q =
     (if q = 0 then Fin 0 else if 0 < q then round_pos q else negate (round_pos (- q)))"

text \<open>
  ToNumber on a string (StringNumericLiteral): white space around the text is dropped;
  the empty text is 0; \<^verbatim>\<open>0x\<close>, \<^verbatim>\<open>0o\<close> and \<^verbatim>\<open>0b\<close> introduce unsigned integers in base 16,
  8 and 2; otherwise an optional sign is followed by \<^verbatim>\<open>Infinity\<close> or by decimal digits with
  an optional fraction and an optional exponent. The value is rounded to a double. Any
  other text is \<^verbatim>\<open>NaN\<close>.
\<close>

definition is_space :: "char \<Rightarrow> bool" where
  "is_space c =
     (c = CHR '' '' \<or> c = CHR 0x09 \<or> c = CHR 0x0A \<or> c = CHR 0x0B \<or> c = CHR 0x0C \<or>
      c = CHR 0x0D \<or> c = CHR 0xA0)"

definition is_digit :: "char \<Rightarrow> bool" where
  "is_digit c = ((48::nat) \<le> of_char c \<and> (of_char c :: nat) \<le> 57)"

definition digit_val :: "char \<Rightarrow> int" where
  "digit_val c = of_char c - 48"

definition trim :: "string \<Rightarrow> string" where
  "trim s = rev (dropWhile is_space (rev (dropWhile is_space s)))"

definition digits_to_int :: "string \<Rightarrow> int option" where
  "digits_to_int s =
     (if s \<noteq> [] \<and> list_all is_digit s
      then Some (foldl (\<lambda>n c. 10 * n + digit_val c) 0 s) else None)"

text \<open>The value of a digit in bases up to 16.\<close>

definition radix_digit :: "char \<Rightarrow> int option" where
  "radix_digit c =
     (let n = (of_char c :: int)
      in if 48 \<le> n \<and> n \<le> 57 then Some (n - 48)
         else if 97 \<le> n \<and> n \<le> 102 then Some (n - 87)
         else if 65 \<le> n \<and> n \<le> 70 then Some (n - 55)
         else None)"

definition in_radix :: "int \<Rightarrow> char \<Rightarrow> bool" where
  "in_radix b c = (case radix_digit c of None \<Rightarrow> False | Some d \<Rightarrow> d < b)"

definition radix_to_int :: "int \<Rightarrow> string \<Rightarrow> int option" where
  "radix_to_int b s =
     (if s \<noteq> [] \<and> list_all (in_radix b) s
      then Some (foldl (\<lambda>n c. b * n + (case radix_digit c of None \<Rightarrow> 0 | Some d \<Rightarrow> d)) 0 s)
      else None)"

text \<open>The base that a \<^verbatim>\<open>0x\<close>, \<^verbatim>\<open>0o\<close> or \<^verbatim>\<open>0b\<close> prefix announces.\<close>

definition radix_prefix :: "string \<Rightarrow> int option" where
  "radix_prefix t =
     (case t of
        c0 # c1 # _ \<Rightarrow>
          if c0 \<noteq> CHR ''0'' then None
          else if c1 = CHR ''x'' \<or> c1 = CHR ''X'' then Some 16
          else if c1 = CHR ''o'' \<or> c1 = CHR ''O'' then Some 8
          else if c1 = CHR ''b'' \<or> c1 = CHR ''B'' then Some 2
          else None
      | _ \<Rightarrow> None)"

text \<open>SignedInteger, after the exponent indicator.\<close>

definition signed_integer :: "string \<Rightarrow> int option" where
  "signed_integer x =
     (case x of
        [] \<Rightarrow> None
      | c # d \<Rightarrow>
          if c = CHR ''-'' then map_option uminus (digits_to_int d)
          else if c = CHR ''+'' then digits_to_int d
          else digits_to_int x)"

definition exponent_part :: "string \<Rightarrow> int option" where
  "exponent_part r =
     (case r of
        [] \<Rightarrow> Some 0
      | c # x \<Rightarrow> if c = CHR ''e'' \<or> c = CHR ''E'' then signed_integer x else None)"

text \<open>
  The mathematical value of digits, fraction and exponent: at least one digit before or
  after the point.
\<close>

definition decimal_value :: "string \<Rightarrow> rat option" where
  "decimal_value r =
     (let ip = takeWhile is_digit r;
          r1 = dropWhile is_digit r;
          fp = (case r1 of [] \<Rightarrow> [] | c # r' \<Rightarrow> if c = CHR ''.'' then takeWhile is_digit r' else []);
          r2 = (case r1 of [] \<Rightarrow> [] | c # r' \<Rightarrow> if c = CHR ''.'' then dropWhile is_digit r' else r1)
      in if ip = [] \<and> fp = [] then None
         else case exponent_part r2 of
                None \<Rightarrow> None
              | Some ex \<Rightarrow>
                  Some (of_int (foldl (\<lambda>n c. 10 * n + digit_val c) 0 (ip @ fp)) *
                        pow10 (ex - int (length fp))))"

definition unsigned_decimal :: "string \<Rightarrow> jsnum" where
  "unsigned_decimal r =
     (if r = ''Infinity'' then PInf
      else case decimal_value r of None \<Rightarrow> NaN | Some q \<Rightarrow> to_double q)"

definition str_to_number :: "string \<Rightarrow> jsnum" where
  "str_to_number s =
     (case trim s of
        [] \<Rightarrow> Fin 0
      | c # cs \<Rightarrow>
          (case radix_prefix (c # cs) of
             Some b \<Rightarrow>
               (case radix_to_int b (tl cs) of None \<Rightarrow> NaN | Some n \<Rightarrow> to_double (of_int n))
           | None \<Rightarrow>
               if c = CHR ''-'' then negate (unsigned_decimal cs)
               else if c = CHR ''+'' then unsigned_decimal cs
               else unsigned_decimal (c # cs)))"

text \<open>ToNumber.\<close>

fun to_number :: "jsval \<Rightarrow> jsnum" where
  "to_number JUndefined = NaN"
| "to_number JNull = Fin 0"
| "to_number (JBool b) = Fin (if b then 1 else 0)"
| "to_number (JNum n) = Fin (of_int n)"
| "to_number JNaN = NaN"
| "to_number (JStr s) = str_to_number s"
| "to_number (JFun f) = NaN"
| "to_number (JError m) = NaN"

text \<open>\<^verbatim>\<open>i <= v\<close> for an integer \<open>i\<close> and a Number \<open>v\<close>: false as soon as \<open>v\<close> is \<^verbatim>\<open>NaN\<close>.\<close>

fun js_le :: "int \<Rightarrow> jsnum \<Rightarrow> bool" where
  "js_le i NaN = False"
| "js_le i PInf = True"
| "js_le i NInf = False"
| "js_le i (Fin q) = (of_int i \<le> q)"

section \<open>What a call does to its collaborators\<close>

text \<open>
  Every call the module makes on the tracker client, the file system, the HTTP client,
  the scheduler or the caller's callback is recorded, in order:
  \<^item> \<open>Send name command args\<close>: \<^verbatim>\<open>this.mogile.send(this.name, command, args, ...)\<close>;
  \<^item> \<open>Callback args\<close>: the caller's callback (or \<^verbatim>\<open>noop\<close>) invoked with exactly \<open>args\<close>;
  \<^item> \<open>CreateWriteStream local\<close>, \<open>SinkWrite data\<close>, \<open>SinkEnd\<close>: the local write stream;
  \<^item> \<open>HttpGet url\<close>, \<open>ResPause\<close>, \<open>ResResume\<close>: the GET request built from
    \<^verbatim>\<open>url.parse(url)\<close> and its response stream;
  \<^item> \<open>NextTick\<close>: \<^verbatim>\<open>process.nextTick(finished)\<close>;
  \<^item> \<open>Stat local\<close>, \<open>HttpPut url size\<close>, \<open>CreateReadStream local\<close>, \<open>Pipe\<close>,
    \<open>RequestEnd\<close>: the upload's collaborators;
  \<^item> \<open>Throw name\<close>: an exception that leaves the running handler uncaught.
\<close>

datatype effect =
    Send string string jsobj
  | Callback "jsval list"
  | CreateWriteStream string
  | SinkWrite string
  | SinkEnd
  | HttpGet string
  | ResPause
  | ResResume
  | NextTick
  | Stat string
  | HttpPut string nat
  | CreateReadStream string
  | Pipe
  | RequestEnd
  | Throw string

section \<open>getPaths\<close>

definition getPaths_args :: "jsval \<Rightarrow> jsval \<Rightarrow> jsobj" where
  "getPaths_args key noverify =
     [(''key'', key), (''noverify'', JStr (if truthy noverify then ''1'' else ''0''))]"

definition getPaths :: "string \<Rightarrow> jsval \<Rightarrow> jsval \<Rightarrow> effect" where
  "getPaths name key noverify = Send name ''GET_PATHS'' (getPaths_args key noverify)"

text \<open>
  An array holds at most \<open>2\<^sup>3\<^sup>2 - 1\<close> elements: \<^verbatim>\<open>push\<close> on a full array raises a
  \<^verbatim>\<open>RangeError\<close>. (Running out of memory before that is not modelled.)
\<close>

definition max_array_length :: int where
  "max_array_length = 2 ^ 32 - 1"

text \<open>
  The loop \<^verbatim>\<open>for (var i = 1; i <= response['paths']; i++) paths.push(response['path' + i])\<close>:
  \<open>Inr paths\<close> when it ends, \<open>Inl\<close> the exception when \<^verbatim>\<open>push\<close> raises. The counter stays
  below \<open>2\<^sup>3\<^sup>2\<close>, where \<^verbatim>\<open>i++\<close> is exact.
\<close>

function paths_loop :: "jsobj \<Rightarrow> int \<Rightarrow> jsval list \<Rightarrow> string + jsval list" where
  "paths_loop response i paths =
     (if js_le i (to_number (obj_get response ''paths''))
      then if max_array_length \<le> int (length paths) then Inl ''RangeError''
           else paths_loop response (i + 1)
                  (paths @ [obj_get response (''path'' @ num_to_string i)])
      else Inr paths)"
  by pat_completeness auto
termination
  by (relation "measure (\<lambda>(response, i, paths). nat (max_array_length - int (length paths)))")
    auto

text \<open>
  What the callback given to \<^verbatim>\<open>send\<close> does: \<open>Failure err\<close> is \<^verbatim>\<open>callback(err)\<close>,
  \<open>Paths paths\<close> is \<^verbatim>\<open>callback(null, paths)\<close>, \<open>Uncaught x\<close> is an exception that leaves it.
\<close>

datatype reply = Failure jsval | Paths "jsval list" | Uncaught string

definition getPaths_reply :: "jsval \<Rightarrow> jsobj \<Rightarrow> reply" where
  "getPaths_reply err response =
     (if truthy err then Failure err
      else case paths_loop response 1 [] of Inl x \<Rightarrow> Uncaught x | Inr paths \<Rightarrow> Paths paths)"

section \<open>del\<close>

text \<open>
  \<open>del\<close> gives the request it sends and the function that the callback it hands to
  \<^verbatim>\<open>send\<close> will call: the caller's callback after the shuffle of the arguments, or
  \<^verbatim>\<open>noop\<close>.
\<close>

definition del :: "string \<Rightarrow> jsval \<Rightarrow> jsval \<Rightarrow> jsval \<Rightarrow> effect \<times> jsval" where
  "del name key storage_class callback =
     (let (callback, storage_class) =
            (if is_function storage_class then (storage_class, JNull)
             else (callback, storage_class));
          callback = js_or callback (JFun Noop)
      in (Send name ''DELETE'' [(''key'', key), (''class'', storage_class)], callback))"

section \<open>get\_keys\<close>

text \<open>The request that \<^verbatim>\<open>get_keys\<close> sends, with the defaults it fills in.\<close>

definition get_keys_args :: "jsval \<Rightarrow> jsval \<Rightarrow> jsval \<Rightarrow> jsobj" where
  "get_keys_args prefix lastKey limit =
     (let lastKey = js_or lastKey (JNum 0);
          limit = js_or limit (JNum 100)
      in [(''prefix'', prefix), (''after'', lastKey), (''limit'', limit)])"

definition get_keys :: "string \<Rightarrow> jsval \<Rightarrow> jsval \<Rightarrow> jsval \<Rightarrow> effect" where
  "get_keys name prefix lastKey limit =
     Send name ''list_keys'' (get_keys_args prefix lastKey limit)"

section \<open>getFile\<close>

text \<open>
  \<^verbatim>\<open>getFile\<close> registers handlers and returns; the rest of the download happens when the
  tracker client, the write stream, the HTTP client and the scheduler call them. The
  variables its closures share are the fields of \<open>download\<close>:
  \<^item> \<open>bytes_written\<close>, \<open>paused\<close>, \<open>has_response\<close> (\<^verbatim>\<open>response\<close> is no longer \<^verbatim>\<open>null\<close>),
    \<open>paths\<close>, \<open>local\<close>: the variables of the source;
  \<^item> \<open>paths_pending\<close>: the callback given to \<^verbatim>\<open>getPaths\<close> has not run yet;
  \<^item> \<open>sink_created\<close>: the write stream exists, its \<^verbatim>\<open>open\<close>, \<^verbatim>\<open>error\<close> and \<^verbatim>\<open>drain\<close>
    listeners are registered; \<open>sink_opened\<close>: \<^verbatim>\<open>open\<close> has been emitted;
  \<^item> \<open>get_issued\<close>: \<^verbatim>\<open>http.get\<close> has been called, its \<^verbatim>\<open>error\<close> listener is registered;
  \<^item> \<open>src_paused\<close>: the response stream is paused (\<^verbatim>\<open>res.pause()\<close> sets it,
    \<^verbatim>\<open>response.resume()\<close> clears it); \<open>src_ended\<close>: \<^verbatim>\<open>end\<close> has been emitted;
  \<^item> \<open>ticks\<close>: how many \<^verbatim>\<open>process.nextTick(finished)\<close> are queued;
  \<^item> \<open>crashed\<close>: an exception has left a handler uncaught, which ends the process.
\<close>

record download =
  local :: string
  paths_pending :: bool
  paths :: "jsval list"
  sink_created :: bool
  sink_opened :: bool
  get_issued :: bool
  has_response :: bool
  src_paused :: bool
  src_ended :: bool
  bytes_written :: nat
  paused :: bool
  ticks :: nat
  crashed :: bool

text \<open>
  What the collaborators do to a download. A listener runs only once it is registered;
  the tracker reply, \<^verbatim>\<open>open\<close>, the response and \<^verbatim>\<open>end\<close> come at most once each.
  \<^item> \<open>TrackerReply err response\<close>: the tracker client answers \<^verbatim>\<open>GET_PATHS\<close>;
  \<^item> \<open>SinkOpen\<close>, \<open>SinkError e\<close>: the write stream's \<^verbatim>\<open>open\<close> and \<^verbatim>\<open>error\<close>;
  \<^item> \<open>SinkDrain received\<close>: the write stream's \<^verbatim>\<open>drain\<close>; \<open>received\<close> is what
    \<^verbatim>\<open>response.complete\<close> reads at that moment;
  \<^item> \<open>HttpResponse\<close>: the callback of \<^verbatim>\<open>http.get\<close>;
  \<^item> \<open>ResData data drained\<close>: the response's \<^verbatim>\<open>data\<close>; \<open>drained\<close> is what
    \<^verbatim>\<open>stream.write(data)\<close> returns;
  \<^item> \<open>ResEnd\<close>: the response's \<^verbatim>\<open>end\<close>;
  \<^item> \<open>GetError e\<close>: the request's \<^verbatim>\<open>error\<close>;
  \<^item> \<open>Tick\<close>: the scheduler runs one queued \<^verbatim>\<open>finished\<close>.
\<close>

datatype event =
    TrackerReply jsval jsobj
  | SinkOpen
  | SinkError jsval
  | SinkDrain bool
  | HttpResponse
  | ResData string bool
  | ResEnd
  | GetError jsval
  | Tick

text \<open>\<^verbatim>\<open>getFile(key, local, callback)\<close>: the state it leaves and the request it sends.\<close>

definition getFile :: "string \<Rightarrow> jsval \<Rightarrow> string \<Rightarrow> download \<times> effect list" where
  "getFile name key loc =
     (\<lparr>local = loc, paths_pending = True, paths = [], sink_created = False,
       sink_opened = False, get_issued = False, has_response = False, src_paused = False,
       src_ended = False, bytes_written = 0, paused = False, ticks = 0, crashed = False\<rparr>,
      [getPaths name key (JNum 0)])"

text \<open>\<^verbatim>\<open>paths[0]\<close>\<close>

definition first_path :: "jsval list \<Rightarrow> jsval" where
  "first_path ps = (case ps of [] \<Rightarrow> JUndefined | p # _ \<Rightarrow> p)"

text \<open>The local function \<^verbatim>\<open>finished\<close> of the \<^verbatim>\<open>end\<close> listener.\<close>

definition finished :: "download \<Rightarrow> download \<times> effect list" where
  "finished s =
     (if paused s then (s\<lparr>ticks := ticks s + 1\<rparr>, [NextTick])
      else (s, [SinkEnd, Callback [JNull, JNum (int (bytes_written s))]]))"

text \<open>
  One handler run. \<^verbatim>\<open>url.parse\<close> raises a \<^verbatim>\<open>TypeError\<close> on anything but a string, and so
  does reading \<^verbatim>\<open>response.complete\<close> while \<^verbatim>\<open>response\<close> is \<^verbatim>\<open>null\<close>.
\<close>

fun step :: "download \<Rightarrow> event \<Rightarrow> download \<times> effect list" where
  "step s (TrackerReply err response) =
     (if \<not> paths_pending s then (s, [])
      else case getPaths_reply err response of
             Failure e \<Rightarrow> (s\<lparr>paths_pending := False\<rparr>, [Callback [e]])
           | Paths ps \<Rightarrow>
               (s\<lparr>paths_pending := False, paths := ps, sink_created := True\<rparr>,
                [CreateWriteStream (local s)])
           | Uncaught x \<Rightarrow> (s\<lparr>paths_pending := False, crashed := True\<rparr>, [Throw x]))"
| "step s SinkOpen =
     (if \<not> sink_created s \<or> sink_opened s then (s, [])
      else case first_path (paths s) of
             JStr u \<Rightarrow> (s\<lparr>sink_opened := True, get_issued := True\<rparr>, [HttpGet u])
           | _ \<Rightarrow> (s\<lparr>sink_opened := True, crashed := True\<rparr>, [Throw ''TypeError'']))"
| "step s (SinkError e) =
     (if \<not> sink_created s then (s, []) else (s, [Callback [e]]))"
| "step s (SinkDrain received) =
     (if \<not> sink_created s then (s, [])
      else if paused s then
        (if \<not> has_response s then (s\<lparr>crashed := True\<rparr>, [Throw ''TypeError''])
         else if \<not> received then (s\<lparr>src_paused := False, paused := False\<rparr>, [ResResume])
         else (s\<lparr>paused := False\<rparr>, []))
      else (s, []))"
| "step s HttpResponse =
     (if \<not> get_issued s \<or> has_response s then (s, [])
      else (s\<lparr>has_response := True\<rparr>, []))"
| "step s (ResData data drained) =
     (if \<not> has_response s then (s, [])
      else let s = s\<lparr>bytes_written := bytes_written s + length data\<rparr>
           in if \<not> drained then (s\<lparr>src_paused := True, paused := True\<rparr>, [SinkWrite data, ResPause])
              else (s, [SinkWrite data]))"
| "step s ResEnd =
     (if \<not> has_response s \<or> src_ended s then (s, [])
      else finished (s\<lparr>src_ended := True\<rparr>))"
| "step s (GetError e) =
     (if \<not> get_issued s then (s, []) else (s, [SinkEnd, Callback [e]]))"
| "step s Tick =
     (if ticks s = 0 then (s, []) else finished (s\<lparr>ticks := ticks s - 1\<rparr>))"

text \<open>
  What the runtime can deliver next:
  \<^item> nothing once an exception has gone uncaught;
  \<^item> the queue of \<^verbatim>\<open>process.nextTick\<close> is emptied before any event of the file system or the
    network is delivered: while a \<^verbatim>\<open>finished\<close> is queued, only \<open>Tick\<close>;
  \<^item> an event only to a listener that is registered; the tracker reply, \<^verbatim>\<open>open\<close>, the
    response and \<^verbatim>\<open>end\<close> at most once;
  \<^item> \<^verbatim>\<open>drain\<close> only after a write that returned false;
  \<^item> no \<^verbatim>\<open>data\<close> and no \<^verbatim>\<open>end\<close> from a response that is paused or has ended.
\<close>

fun enabled :: "download \<Rightarrow> event \<Rightarrow> bool" where
  "enabled s Tick = (\<not> crashed s \<and> 0 < ticks s)"
| "enabled s (TrackerReply err response) = (\<not> crashed s \<and> ticks s = 0 \<and> paths_pending s)"
| "enabled s SinkOpen = (\<not> crashed s \<and> ticks s = 0 \<and> sink_created s \<and> \<not> sink_opened s)"
| "enabled s (SinkError e) = (\<not> crashed s \<and> ticks s = 0 \<and> sink_created s)"
| "enabled s (SinkDrain received) = (\<not> crashed s \<and> ticks s = 0 \<and> sink_created s \<and> paused s)"
| "enabled s HttpResponse = (\<not> crashed s \<and> ticks s = 0 \<and> get_issued s \<and> \<not> has_response s)"
| "enabled s (ResData d drained) =
     (\<not> crashed s \<and> ticks s = 0 \<and> has_response s \<and> \<not> src_paused s \<and> \<not> src_ended s)"
| "enabled s ResEnd =
     (\<not> crashed s \<and> ticks s = 0 \<and> has_response s \<and> \<not> src_paused s \<and> \<not> src_ended s)"
| "enabled s (GetError e) = (\<not> crashed s \<and> ticks s = 0 \<and> get_issued s)"

text \<open>
  A run: the handlers called one after the other, with everything they did; \<open>None\<close> when
  the runtime cannot deliver the events in this order.
\<close>

fun run :: "download \<times> effect list \<Rightarrow> event list \<Rightarrow> (download \<times> effect list) option" where
  "run c [] = Some c"
| "run (s, effs) (ev # evs) =
     (if enabled s ev then (case step s ev of (s', new) \<Rightarrow> run (s', effs @ new) evs)
      else None)"

section \<open>storeFile\<close>

text \<open>
  The variables shared by the closures of \<^verbatim>\<open>storeFile\<close>:
  \<^item> \<open>u_name\<close>, \<open>u_key\<close>, \<open>u_class\<close>, \<open>u_local\<close>: \<^verbatim>\<open>$this.name\<close> and the arguments;
  \<^item> \<open>open_pending\<close>: the callback of the \<^verbatim>\<open>CREATE_OPEN\<close> send has not run yet;
    \<open>open_response\<close>: its \<^verbatim>\<open>response\<close>;
  \<^item> \<open>stat_pending\<close>: the callback of \<^verbatim>\<open>fs.stat\<close> has not run yet; \<open>stat_size\<close>: \<^verbatim>\<open>stat.size\<close>;
  \<^item> \<open>request_created\<close>: \<^verbatim>\<open>http.request\<close> has been called, its \<^verbatim>\<open>error\<close> listener is
    registered;
  \<^item> \<open>source_active\<close>: the read stream exists and has not emitted \<^verbatim>\<open>end\<close>;
  \<^item> \<open>close_pending\<close>: the callback of the \<^verbatim>\<open>CREATE_CLOSE\<close> send has not run yet.
\<close>

record upload =
  u_name :: string
  u_key :: jsval
  u_class :: jsval
  u_local :: string
  open_pending :: bool
  open_response :: jsobj
  stat_pending :: bool
  stat_size :: nat
  request_created :: bool
  source_active :: bool
  close_pending :: bool

text \<open>
  What the collaborators do to an upload; each callback and \<^verbatim>\<open>end\<close> come at most once.
  \<^item> \<open>OpenReply err response\<close>, \<open>CloseReply err response\<close>: the tracker client answers
    \<^verbatim>\<open>CREATE_OPEN\<close>, \<^verbatim>\<open>CREATE_CLOSE\<close>;
  \<^item> \<open>StatReply err size\<close>: the callback of \<^verbatim>\<open>fs.stat\<close>;
  \<^item> \<open>RequestError e\<close>: the PUT request's \<^verbatim>\<open>error\<close>;
  \<^item> \<open>SourceEnd\<close>: the read stream's \<^verbatim>\<open>end\<close>;
  \<^item> \<open>PutResponse\<close>: the storage node answers the PUT (the request's \<^verbatim>\<open>response\<close>, for
    which \<^verbatim>\<open>storeFile\<close> registers no listener).
\<close>

datatype uevent =
    OpenReply jsval jsobj
  | StatReply jsval nat
  | RequestError jsval
  | SourceEnd
  | PutResponse
  | CloseReply jsval jsobj

definition storeFile :: "string \<Rightarrow> jsval \<Rightarrow> jsval \<Rightarrow> string \<Rightarrow> upload \<times> effect list" where
  "storeFile name key storage_class loc =
     (\<lparr>u_name = name, u_key = key, u_class = storage_class, u_local = loc,
       open_pending = True, open_response = [], stat_pending = False, stat_size = 0,
       request_created = False, source_active = False, close_pending = False\<rparr>,
      [Send name ''CREATE_OPEN'' [(''key'', key), (''class'', storage_class)]])"

text \<open>The arguments of \<^verbatim>\<open>CREATE_CLOSE\<close>, built in the \<^verbatim>\<open>end\<close> listener.\<close>

definition close_args :: "jsval \<Rightarrow> jsval \<Rightarrow> jsobj \<Rightarrow> jsobj" where
  "close_args key storage_class response =
     [(''key'', key), (''class'', storage_class),
      (''devid'', obj_get response ''devid''),
      (''fid'', obj_get response ''fid''),
      (''path'', obj_get response ''path'')]"

fun ustep :: "upload \<Rightarrow> uevent \<Rightarrow> upload \<times> effect list" where
  "ustep s (OpenReply err response) =
     (if \<not> open_pending s then (s, [])
      else if truthy err then (s\<lparr>open_pending := False\<rparr>, [Callback [err]])
      else (s\<lparr>open_pending := False, open_response := response, stat_pending := True\<rparr>,
            [Stat (u_local s)]))"
| "ustep s (StatReply err sz) =
     (if \<not> stat_pending s then (s, [])
      else if truthy err then (s\<lparr>stat_pending := False\<rparr>, [Callback [err]])
      else case obj_get (open_response s) ''path'' of
             JStr u \<Rightarrow>
               (s\<lparr>stat_pending := False, stat_size := sz, request_created := True,
                  source_active := True\<rparr>,
                [HttpPut u sz, CreateReadStream (u_local s), Pipe])
           | _ \<Rightarrow> (s\<lparr>stat_pending := False\<rparr>, [Throw ''TypeError'']))"
| "ustep s (RequestError e) =
     (if \<not> request_created s then (s, []) else (s, [Callback [e]]))"
| "ustep s SourceEnd =
     (if \<not> source_active s then (s, [])
      else (s\<lparr>source_active := False, close_pending := True\<rparr>,
            [RequestEnd,
             Send (u_name s) ''CREATE_CLOSE'' (close_args (u_key s) (u_class s) (open_response s))]))"
| "ustep s PutResponse = (s, [])"
| "ustep s (CloseReply err response) =
     (if \<not> close_pending s then (s, [])
      else if truthy err then (s\<lparr>close_pending := False\<rparr>, [Callback [err]])
      else (s\<lparr>close_pending := False\<rparr>, [Callback [JNull, JNum (int (stat_size s))]]))"

fun urun :: "upload \<times> effect list \<Rightarrow> uevent list \<Rightarrow> upload \<times> effect list" where
  "urun c [] = c"
| "urun (s, effs) (ev # evs) = (case ustep s ev of (s', new) \<Rightarrow> urun (s', effs @ new) evs)"

section \<open>Observations on runs\<close>

text \<open>The \<^verbatim>\<open>CREATE_CLOSE\<close> requests among the effects of an upload.\<close>

fun is_close_send :: "effect \<Rightarrow> bool" where
  "is_close_send (Send name command args) = (command = ''CREATE_CLOSE'')"
| "is_close_send eff = False"

text \<open>The response that the callback of \<^verbatim>\<open>CREATE_OPEN\<close> receives in a trace.\<close>

fun open_reply_of :: "uevent list \<Rightarrow> jsobj option" where
  "open_reply_of [] = None"
| "open_reply_of (OpenReply err response # evs) = Some response"
| "open_reply_of (ev # evs) = open_reply_of evs"

text \<open>A success report: \<^verbatim>\<open>callback(null, n)\<close>.\<close>

fun is_success :: "effect \<Rightarrow> bool" where
  "is_success (Callback [JNull, v]) = True"
| "is_success eff = False"

text \<open>
  What holds of an upload after the events \<open>evs\<close>, in terms of the handlers still to
  run: nothing is closed or reported before the source has ended, and from then on the
  one \<^verbatim>\<open>CREATE_CLOSE\<close> carries the response that \<^verbatim>\<open>CREATE_OPEN\<close> got.
\<close>

definition upload_inv ::
  "string \<Rightarrow> jsval \<Rightarrow> jsval \<Rightarrow> uevent list \<Rightarrow> upload \<Rightarrow> effect list \<Rightarrow> bool" where
  "upload_inv name key storage_class evs s effs \<longleftrightarrow>
     u_name s = name \<and> u_key s = key \<and> u_class s = storage_class \<and>
     (open_pending s \<longrightarrow>
        open_reply_of evs = None \<and> \<not> stat_pending s \<and> \<not> source_active s) \<and>
     (stat_pending s \<longrightarrow> \<not> source_active s) \<and>
     (open_pending s \<or> stat_pending s \<or> source_active s \<longrightarrow>
        filter is_close_send effs = [] \<and> filter is_success effs = [] \<and> \<not> close_pending s) \<and>
     (stat_pending s \<or> source_active s \<or> close_pending s \<or> filter is_success effs \<noteq> [] \<longrightarrow>
        open_reply_of evs = Some (open_response s)) \<and>
     (close_pending s \<or> filter is_success effs \<noteq> [] \<longrightarrow>
        filter is_close_send effs =
          [Send name ''CREATE_CLOSE'' (close_args key storage_class (open_response s))]) \<and>
     length (filter is_close_send effs) \<le> 1"

section \<open>Path resolution\<close>

text \<open>Counts as a tracker may write them, and what they convert to.\<close>

lemma str_to_number_examples:
  "str_to_number ''3'' = Fin 3"
  "str_to_number ''2.5'' = Fin (5 / 2)"
  "str_to_number ''2.'' = Fin 2"
  "str_to_number ''0x2'' = Fin 2"
  "str_to_number ''2e0'' = Fin 2"
  "str_to_number ''Infinity'' = PInf"
  "str_to_number ''two'' = NaN"
  "str_to_number ''2.9999999999999999999'' = Fin 3"
  by code_simp+

lemma paths_loop_stops:
  "\<not> js_le i (to_number (obj_get response ''paths'')) \<Longrightarrow> paths_loop response i acc = Inr acc"
  by (subst paths_loop.simps) simp

lemma paths_loop_numeric:
  assumes "to_number (obj_get response ''paths'') = Fin q"
    and "\<lfloor>q\<rfloor> < i \<or> int (length acc) + (\<lfloor>q\<rfloor> - i + 1) \<le> max_array_length"
  shows "paths_loop response i acc =
     Inr (acc @ map (\<lambda>j. obj_get response (''path'' @ num_to_string j)) [i..\<lfloor>q\<rfloor>])"
  using assms
proof (induction response i acc rule: paths_loop.induct)
  case (1 response i paths)
  have le: "js_le i (to_number (obj_get response ''paths'')) \<longleftrightarrow> i \<le> \<lfloor>q\<rfloor>"
    using "1.prems"(1) by (simp add: le_floor_iff)
  show ?case
  proof (cases "i \<le> \<lfloor>q\<rfloor>")
    case True
    then have room: "\<not> max_array_length \<le> int (length paths)"
      using "1.prems"(2) by linarith
    have "paths_loop response i paths =
        paths_loop response (i + 1) (paths @ [obj_get response (''path'' @ num_to_string i)])"
      using True le room by (subst paths_loop.simps) simp
    also have "\<dots> = Inr ((paths @ [obj_get response (''path'' @ num_to_string i)]) @
        map (\<lambda>j. obj_get response (''path'' @ num_to_string j)) [i + 1..\<lfloor>q\<rfloor>])"
    proof (rule "1.IH")
      show "js_le i (to_number (obj_get response ''paths''))"
        using True le by simp
      show "\<not> max_array_length \<le> int (length paths)"
        by (rule room)
      show "to_number (obj_get response ''paths'') = Fin q"
        by (rule "1.prems"(1))
      show "\<lfloor>q\<rfloor> < i + 1 \<or>
          int (length (paths @ [obj_get response (''path'' @ num_to_string i)])) +
            (\<lfloor>q\<rfloor> - (i + 1) + 1) \<le> max_array_length"
        using "1.prems"(2) True by simp
    qed
    finally show ?thesis
      using True by (simp add: upto_rec1)
  next
    case False
    then show ?thesis
      using le paths_loop_stops [of i response paths] by simp
  qed
qed

text \<open>
  C8, as the spec states it: a response with a gap in the numbering or with a malformed
  count is surfaced as a protocol error. \<^verbatim>\<open>getPaths\<close> has no such check. With count 3
  and no \<^verbatim>\<open>path2\<close> it reports success with \<^verbatim>\<open>undefined\<close> in second place; with the count
  \<^verbatim>\<open>'two'\<close> the loop condition is false at once and it reports success with no path.
\<close>

theorem getPaths_gap_or_bad_count_is_success:
  "getPaths_reply JNull
     [(''paths'', JStr ''3''), (''path1'', JStr ''http://a/1''), (''path3'', JStr ''http://a/3'')]
     = Paths [JStr ''http://a/1'', JUndefined, JStr ''http://a/3'']
   \<and> getPaths_reply JNull [(''paths'', JStr ''two''), (''path1'', JStr ''http://a/1'')] = Paths []"
  by code_simp

text \<open>
  C8, amended: on a reply without error, \<^verbatim>\<open>getPaths\<close> reports success with the fields
  \<^verbatim>\<open>path1\<close> .. \<^verbatim>\<open>pathN\<close> in order, where N is the whole part of the number that the count
  field converts to (a number below \<open>2\<^sup>3\<^sup>2\<close>); a field that is missing is \<^verbatim>\<open>undefined\<close> at its
  place, and a count that converts to \<^verbatim>\<open>NaN\<close> gives the empty list. No protocol error is
  raised; a reply with an error is passed on as it is.
\<close>

theorem getPaths_reply_paths:
  "(truthy err \<longrightarrow> getPaths_reply err response = Failure err) \<and>
   (\<not> truthy err \<longrightarrow> to_number (obj_get response ''paths'') = Fin q \<longrightarrow> q < 2 ^ 32 \<longrightarrow>
      getPaths_reply err response =
        Paths (map (\<lambda>j. obj_get response (''path'' @ num_to_string j)) [1..\<lfloor>q\<rfloor>])) \<and>
   (\<not> truthy err \<longrightarrow> to_number (obj_get response ''paths'') = NaN \<longrightarrow>
      getPaths_reply err response = Paths [])"
proof (intro conjI impI)
  assume "truthy err"
  then show "getPaths_reply err response = Failure err"
    by (simp add: getPaths_reply_def)
next
  assume e: "\<not> truthy err" and n: "to_number (obj_get response ''paths'') = Fin q"
    and b: "q < 2 ^ 32"
  have "\<lfloor>q\<rfloor> < 2 ^ 32"
    using b by (simp add: floor_less_iff)
  then have "\<lfloor>q\<rfloor> < 1 \<or> int (length ([]::jsval list)) + (\<lfloor>q\<rfloor> - 1 + 1) \<le> max_array_length"
    by (simp add: max_array_length_def)
  then show "getPaths_reply err response =
      Paths (map (\<lambda>j. obj_get response (''path'' @ num_to_string j)) [1..\<lfloor>q\<rfloor>])"
    using e paths_loop_numeric [OF n, of 1 "[]"] by (simp add: getPaths_reply_def)
next
  assume e: "\<not> truthy err" and n: "to_number (obj_get response ''paths'') = NaN"
  then show "getPaths_reply err response = Paths []"
    using paths_loop_stops [of 1 response "[]"] by (simp add: getPaths_reply_def)
qed

text \<open>
  An error reply; the count \<^verbatim>\<open>'2.5'\<close> with two paths; a reply that has no count.
\<close>

theorem getPaths_reply_paths_witness:
  "truthy (JError ''unknown_key'') \<and>
   getPaths_reply (JError ''unknown_key'') [] = Failure (JError ''unknown_key'') \<and>
   \<not> truthy JNull \<and>
   to_number (obj_get [(''paths'', JStr ''2.5''), (''path1'', JStr ''u''), (''path2'', JStr ''v'')]
     ''paths'') = Fin (5 / 2) \<and>
   (5 / 2 :: rat) < 2 ^ 32 \<and>
   getPaths_reply JNull [(''paths'', JStr ''2.5''), (''path1'', JStr ''u''), (''path2'', JStr ''v'')]
     = Paths [JStr ''u'', JStr ''v''] \<and>
   to_number (obj_get [(''path1'', JStr ''u'')] ''paths'') = NaN \<and>
   getPaths_reply JNull [(''path1'', JStr ''u'')] = Paths []"
proof -
  let ?r = "[(''paths'', JStr ''2.5''), (''path1'', JStr ''u''), (''path2'', JStr ''v'')]"
  have t: "truthy (JError ''unknown_key'')" and f: "\<not> truthy JNull"
    by simp_all
  have n: "to_number (obj_get ?r ''paths'') = Fin (5 / 2)"
    by code_simp
  have b: "(5 / 2 :: rat) < 2 ^ 32"
    by simp
  have fl: "\<lfloor>5 / 2 :: rat\<rfloor> = 2"
    by code_simp
  have m: "map (\<lambda>j. obj_get ?r (''path'' @ num_to_string j)) [1..2] = [JStr ''u'', JStr ''v'']"
    by code_simp
  have u: "to_number (obj_get [(''path1'', JStr ''u'')] ''paths'') = NaN"
    by code_simp
  have 1: "getPaths_reply (JError ''unknown_key'') [] = Failure (JError ''unknown_key'')"
    using getPaths_reply_paths [of "JError ''unknown_key''" "[]" 0] t by blast
  have 2: "getPaths_reply JNull ?r =
      Paths (map (\<lambda>j. obj_get ?r (''path'' @ num_to_string j)) [1..\<lfloor>5 / 2 :: rat\<rfloor>])"
    using getPaths_reply_paths [of JNull ?r "5 / 2"] f n b by blast
  have 3: "getPaths_reply JNull [(''path1'', JStr ''u'')] = Paths []"
    using getPaths_reply_paths [of JNull "[(''path1'', JStr ''u'')]" 0] f u by blast
  have 4: "getPaths_reply JNull ?r = Paths [JStr ''u'', JStr ''v'']"
    using 2 by (simp only: fl m)
  show ?thesis
    by (intro conjI t f n b 1 4 u 3)
qed

section \<open>One-shot requests\<close>

text \<open>
  C9: when the second argument of \<^verbatim>\<open>del\<close> is a function, that function is the completion
  callback and the \<^verbatim>\<open>class\<close> field of the \<^verbatim>\<open>DELETE\<close> request is \<^verbatim>\<open>null\<close>, whatever the third
  argument: \<^verbatim>\<open>del(key, callback)\<close> and \<^verbatim>\<open>del(key, null, callback)\<close> send the same request.
\<close>

theorem del_callback_second:
  "is_function f \<Longrightarrow>
   del name key f third = (Send name ''DELETE'' [(''key'', key), (''class'', JNull)], f) \<and>
   del name key f third = del name key JNull f"
  by (cases f) (simp_all add: del_def js_or_def)

theorem del_callback_second_witness:
  "is_function (JFun (Fn 7)) \<and>
   del ''d'' (JStr ''k'') (JFun (Fn 7)) JUndefined
     = (Send ''d'' ''DELETE'' [(''key'', JStr ''k''), (''class'', JNull)], JFun (Fn 7)) \<and>
   del ''d'' (JStr ''k'') (JFun (Fn 7)) JUndefined = del ''d'' (JStr ''k'') JNull (JFun (Fn 7))"
proof -
  have f: "is_function (JFun (Fn 7))"
    by simp
  show ?thesis
    by (rule conjI [OF f del_callback_second [OF f]])
qed

text \<open>
  C10: when \<^verbatim>\<open>lastKey\<close> is omitted or falsy, \<^verbatim>\<open>get_keys\<close> sends \<^verbatim>\<open>list_keys\<close> with
  \<^verbatim>\<open>after\<close> = 0; when \<^verbatim>\<open>limit\<close> is omitted or falsy (0 included), it sends \<^verbatim>\<open>limit\<close> = 100.
\<close>

theorem get_keys_defaults:
  "(\<not> truthy lastKey \<longrightarrow>
      (\<exists>args. get_keys name prefix lastKey limit = Send name ''list_keys'' args \<and>
              obj_get args ''after'' = JNum 0)) \<and>
   (\<not> truthy limit \<longrightarrow>
      (\<exists>args. get_keys name prefix lastKey limit = Send name ''list_keys'' args \<and>
              obj_get args ''limit'' = JNum 100))"
  by (simp add: get_keys_def get_keys_args_def js_or_def obj_get_def)

theorem get_keys_defaults_witness:
  "\<not> truthy JUndefined \<and> \<not> truthy (JNum 0) \<and>
   (\<exists>args. get_keys ''d'' (JStr ''p'') JUndefined (JNum 0) = Send ''d'' ''list_keys'' args \<and>
           obj_get args ''after'' = JNum 0) \<and>
   (\<exists>args. get_keys ''d'' (JStr ''p'') JUndefined (JNum 0) = Send ''d'' ''list_keys'' args \<and>
           obj_get args ''limit'' = JNum 100)"
  using get_keys_defaults [of JUndefined "''d''" "JStr ''p''" "JNum 0"] by simp

section \<open>Download: path resolution\<close>

text \<open>
  C5, as the spec states it: the \<^verbatim>\<open>GET_PATHS\<close> request of a download carries
  \<^verbatim>\<open>noverify\<close> = \<^verbatim>\<open>'1'\<close>. \<^verbatim>\<open>getFile\<close> passes 0 for \<^verbatim>\<open>noverify\<close>, which is falsy.
\<close>

theorem getFile_noverify_not_1:
  "snd (getFile ''d'' (JStr ''k'') ''/tmp/f'')
     = [Send ''d'' ''GET_PATHS'' [(''key'', JStr ''k''), (''noverify'', JStr ''0'')]] \<and>
   obj_get [(''key'', JStr ''k''), (''noverify'', JStr ''0'')] ''noverify'' \<noteq> JStr ''1''"
  by (simp add: getFile_def getPaths_def getPaths_args_def obj_get_def)

text \<open>
  C5, amended: for every download, the \<^verbatim>\<open>GET_PATHS\<close> request sent to the tracker carries
  the key and \<^verbatim>\<open>noverify\<close> = \<^verbatim>\<open>'0'\<close>, and it is the only thing \<^verbatim>\<open>getFile\<close> does before the
  tracker answers.
\<close>

theorem getFile_noverify_0:
  "snd (getFile name key loc)
     = [Send name ''GET_PATHS'' [(''key'', key), (''noverify'', JStr ''0'')]]"
  by (simp add: getFile_def getPaths_def getPaths_args_def)

text \<open>
  C4, as the spec states it: a key that resolves to zero locations makes the download fail
  with NotFoundError, and the empty result never reaches the download path as a success.
  With a count of 0, \<^verbatim>\<open>getPaths\<close> reports success with the empty list, and \<^verbatim>\<open>getFile\<close>
  reports no error and goes on to create the local file.
\<close>

theorem getFile_zero_paths_no_error:
  "getPaths_reply JNull [(''paths'', JStr ''0'')] = Paths [] \<and>
   run (getFile ''d'' (JStr ''k'') ''/tmp/f'') [TrackerReply JNull [(''paths'', JStr ''0'')]]
     = Some (\<lparr>local = ''/tmp/f'', paths_pending = False, paths = [], sink_created = True,
        sink_opened = False, get_issued = False, has_response = False, src_paused = False,
        src_ended = False, bytes_written = 0, paused = False, ticks = 0, crashed = False\<rparr>,
        [Send ''d'' ''GET_PATHS'' [(''key'', JStr ''k''), (''noverify'', JStr ''0'')], CreateWriteStream ''/tmp/f''])"
  by code_simp

text \<open>
  C4, amended: when path resolution yields zero locations (the count converts to nothing
  that 1 is at most), \<^verbatim>\<open>getPaths\<close> reports success with the empty list; there is no
  NotFoundError. \<^verbatim>\<open>getFile\<close> takes the empty list as a success: it invokes no callback for
  the reply and goes on to create the local write stream.
\<close>

theorem getFile_zero_paths:
  "\<not> truthy err \<Longrightarrow> \<not> js_le 1 (to_number (obj_get response ''paths'')) \<Longrightarrow>
   getPaths_reply err response = Paths [] \<and>
   run (getFile name key loc) [TrackerReply err response]
     = Some (\<lparr>local = loc, paths_pending = False, paths = [], sink_created = True,
        sink_opened = False, get_issued = False, has_response = False, src_paused = False,
        src_ended = False, bytes_written = 0, paused = False, ticks = 0, crashed = False\<rparr>,
        [getPaths name key (JNum 0), CreateWriteStream loc])"
proof -
  assume e: "\<not> truthy err" and z: "\<not> js_le 1 (to_number (obj_get response ''paths''))"
  have p: "getPaths_reply err response = Paths []"
    using e paths_loop_stops [OF z, of "[]"] by (simp add: getPaths_reply_def)
  show ?thesis
    using p by (simp add: getFile_def)
qed

text \<open>A reply without error whose count is \<^verbatim>\<open>'0'\<close>.\<close>

theorem getFile_zero_paths_witness:
  "\<not> truthy JNull \<and>
   \<not> js_le 1 (to_number (obj_get [(''paths'', JStr ''0'')] ''paths'')) \<and>
   getPaths_reply JNull [(''paths'', JStr ''0'')] = Paths [] \<and>
   run (getFile ''d'' (JStr ''k'') ''/tmp/f'') [TrackerReply JNull [(''paths'', JStr ''0'')]]
     = Some (\<lparr>local = ''/tmp/f'', paths_pending = False, paths = [], sink_created = True,
        sink_opened = False, get_issued = False, has_response = False, src_paused = False,
        src_ended = False, bytes_written = 0, paused = False, ticks = 0, crashed = False\<rparr>,
        [getPaths ''d'' (JStr ''k'') (JNum 0), CreateWriteStream ''/tmp/f''])"
proof -
  have e: "\<not> truthy JNull"
    by simp
  have z: "\<not> js_le 1 (to_number (obj_get [(''paths'', JStr ''0'')] ''paths''))"
    by code_simp
  show ?thesis
    by (intro conjI e z getFile_zero_paths [OF e z, THEN conjunct1]
        getFile_zero_paths [OF e z, THEN conjunct2])
qed

section \<open>Runs of a download\<close>

lemma run_append: "run c (xs @ ys) = Option.bind (run c xs) (\<lambda>c'. run c' ys)"
  by (induction c xs rule: run.induct) (simp_all split: prod.splits)

lemma error_report_is_no_success: "\<not> is_success (Callback [e])"
  by (cases e) simp_all

text \<open>
  The deferral of \<^verbatim>\<open>finished\<close>: while \<open>paused\<close> is set and a \<^verbatim>\<open>finished\<close> is queued, the
  runtime can only run it, and it queues itself again and changes nothing. No \<^verbatim>\<open>drain\<close> can
  come in between to clear \<open>paused\<close>.
\<close>

lemma finished_requeues_itself:
  assumes "paused s" "0 < ticks s" "\<not> crashed s"
  shows "enabled s ev \<longleftrightarrow> ev = Tick" and "step s Tick = (s, [NextTick])"
  using assms by (cases ev; simp add: finished_def)+


section \<open>Download: flow control\<close>

lemma paused_source_step:
  assumes "enabled s ev" "src_paused s" "\<not> paused s" "ticks s = 0"
  shows "src_paused (fst (step s ev)) \<and> \<not> paused (fst (step s ev)) \<and>
         ticks (fst (step s ev)) = 0 \<and> filter is_success (snd (step s ev)) = [] \<and>
         ResResume \<notin> set (snd (step s ev))"
proof (cases ev)
  case (TrackerReply err response)
  then show ?thesis
    using assms by (cases "getPaths_reply err response") simp_all
next
  case SinkOpen
  then show ?thesis
    using assms by (cases "first_path (paths s)") simp_all
next
  case (SinkError e)
  then show ?thesis
    using assms by (simp add: error_report_is_no_success)
next
  case (GetError e)
  then show ?thesis
    using assms by (simp add: error_report_is_no_success)
qed (use assms in simp_all)

lemma paused_source_stays:
  assumes "run (s, effs) evs = Some (s', effs')" "src_paused s" "\<not> paused s" "ticks s = 0"
  shows "src_paused s' \<and> \<not> paused s' \<and> ticks s' = 0 \<and>
         filter is_success effs' = filter is_success effs \<and>
         (ResResume \<in> set effs' \<longrightarrow> ResResume \<in> set effs)"
  using assms
proof (induction evs arbitrary: s effs)
  case Nil
  then show ?case by simp
next
  case (Cons ev evs)
  have en: "enabled s ev"
    using Cons.prems(1) by (simp split: if_splits)
  note one = paused_source_step [OF en Cons.prems(2,3,4)]
  have rest: "run (fst (step s ev), effs @ snd (step s ev)) evs = Some (s', effs')"
    using Cons.prems(1) en by (simp split: prod.splits)
  have a: "src_paused (fst (step s ev))" and b: "\<not> paused (fst (step s ev))"
    and c: "ticks (fst (step s ev)) = 0"
    using one by blast+
  have "src_paused s' \<and> \<not> paused s' \<and> ticks s' = 0 \<and>
         filter is_success effs' = filter is_success (effs @ snd (step s ev)) \<and>
         (ResResume \<in> set effs' \<longrightarrow> ResResume \<in> set (effs @ snd (step s ev)))"
    by (rule Cons.IH [OF rest a b c])
  then show ?case
    using one by simp
qed

lemma complete_before_drain:
  assumes "getPaths_reply err response = Paths (JStr u # ps)"
  shows "run (getFile name key loc)
      [TrackerReply err response, SinkOpen, HttpResponse, ResData d False, SinkDrain True]
    = Some (\<lparr>local = loc, paths_pending = False, paths = JStr u # ps, sink_created = True,
        sink_opened = True, get_issued = True, has_response = True, src_paused = True,
        src_ended = False, bytes_written = length d, paused = False, ticks = 0,
        crashed = False\<rparr>,
       [getPaths name key (JNum 0), CreateWriteStream loc, HttpGet u, SinkWrite d, ResPause])"
  using assms by (simp add: getFile_def first_path_def)

text \<open>
  C3 (after a write that did not drain, the source resumes when the sink drains, and the
  transfer completes with the count of the bytes received) fails at this input: a chunk
  is written and \<^verbatim>\<open>stream.write\<close> returns false, so the source is paused; by the time the
  sink emits \<^verbatim>\<open>drain\<close> the response is complete. The \<^verbatim>\<open>drain\<close> listener clears \<open>paused\<close>
  and does not call \<^verbatim>\<open>response.resume()\<close>. Whatever the runtime delivers afterwards, the
  source stays paused, so it emits no \<^verbatim>\<open>end\<close>; \<^verbatim>\<open>resume\<close> is never called and the download
  never reports a byte count.
\<close>

theorem drain_after_complete_never_reports:
  "getPaths_reply err response = Paths (JStr u # ps) \<Longrightarrow>
   run (getFile name key loc)
     ([TrackerReply err response, SinkOpen, HttpResponse, ResData d False, SinkDrain True] @ evs)
     = Some (s, effs) \<Longrightarrow>
   src_paused s \<and> \<not> enabled s ResEnd \<and> ResResume \<notin> set effs \<and> filter is_success effs = []"
proof -
  assume p: "getPaths_reply err response = Paths (JStr u # ps)"
    and r: "run (getFile name key loc)
     ([TrackerReply err response, SinkOpen, HttpResponse, ResData d False, SinkDrain True] @ evs)
     = Some (s, effs)"
  let ?s = "\<lparr>local = loc, paths_pending = False, paths = JStr u # ps, sink_created = True,
        sink_opened = True, get_issued = True, has_response = True, src_paused = True,
        src_ended = False, bytes_written = length d, paused = False, ticks = 0,
        crashed = False\<rparr>"
  let ?e = "[getPaths name key (JNum 0), CreateWriteStream loc, HttpGet u, SinkWrite d, ResPause]"
  have "run (?s, ?e) evs = Some (s, effs)"
    using r by (simp only: run_append complete_before_drain [OF p]) simp
  then have "src_paused s \<and> \<not> paused s \<and> ticks s = 0 \<and>
         filter is_success effs = filter is_success ?e \<and>
         (ResResume \<in> set effs \<longrightarrow> ResResume \<in> set ?e)"
    by (rule paused_source_stays) simp_all
  then show ?thesis
    by (auto simp: getPaths_def)
qed

text \<open>
  The last chunk saturates the sink, the response is complete when the sink drains, and
  the request later times out: the only callback is the one of the error.
\<close>

theorem drain_after_complete_never_reports_witness:
  "getPaths_reply JNull [(''paths'', JStr ''1''), (''path1'', JStr ''http://a/1'')] = Paths [JStr ''http://a/1''] \<and>
   run (getFile ''d'' (JStr ''k'') ''/tmp/f'')
     ([TrackerReply JNull [(''paths'', JStr ''1''), (''path1'', JStr ''http://a/1'')], SinkOpen, HttpResponse, ResData ''abc'' False, SinkDrain True] @
      [GetError (JError ''ETIMEDOUT'')])
     = Some (\<lparr>local = ''/tmp/f'', paths_pending = False, paths = [JStr ''http://a/1''], sink_created = True,
        sink_opened = True, get_issued = True, has_response = True, src_paused = True,
        src_ended = False, bytes_written = 3, paused = False, ticks = 0, crashed = False\<rparr>,
        [Send ''d'' ''GET_PATHS'' [(''key'', JStr ''k''), (''noverify'', JStr ''0'')],
        CreateWriteStream ''/tmp/f'', HttpGet ''http://a/1'', SinkWrite ''abc'', ResPause,
        SinkEnd, Callback [JError ''ETIMEDOUT'']]) \<and>
   src_paused \<lparr>local = ''/tmp/f'', paths_pending = False, paths = [JStr ''http://a/1''], sink_created = True,
        sink_opened = True, get_issued = True, has_response = True, src_paused = True,
        src_ended = False, bytes_written = 3, paused = False, ticks = 0, crashed = False\<rparr> \<and>
   \<not> enabled \<lparr>local = ''/tmp/f'', paths_pending = False, paths = [JStr ''http://a/1''], sink_created = True,
        sink_opened = True, get_issued = True, has_response = True, src_paused = True,
        src_ended = False, bytes_written = 3, paused = False, ticks = 0, crashed = False\<rparr> ResEnd \<and>
   ResResume \<notin> set ([Send ''d'' ''GET_PATHS'' [(''key'', JStr ''k''), (''noverify'', JStr ''0'')],
        CreateWriteStream ''/tmp/f'', HttpGet ''http://a/1'', SinkWrite ''abc'', ResPause,
        SinkEnd, Callback [JError ''ETIMEDOUT'']]) \<and>
   filter is_success ([Send ''d'' ''GET_PATHS'' [(''key'', JStr ''k''), (''noverify'', JStr ''0'')],
        CreateWriteStream ''/tmp/f'', HttpGet ''http://a/1'', SinkWrite ''abc'', ResPause,
        SinkEnd, Callback [JError ''ETIMEDOUT'']]) = []"
proof -
  let ?s = "\<lparr>local = ''/tmp/f'', paths_pending = False, paths = [JStr ''http://a/1''], sink_created = True,
        sink_opened = True, get_issued = True, has_response = True, src_paused = True,
        src_ended = False, bytes_written = 3, paused = False, ticks = 0, crashed = False\<rparr>"
  let ?e = "[Send ''d'' ''GET_PATHS'' [(''key'', JStr ''k''), (''noverify'', JStr ''0'')],
        CreateWriteStream ''/tmp/f'', HttpGet ''http://a/1'', SinkWrite ''abc'', ResPause,
        SinkEnd, Callback [JError ''ETIMEDOUT'']]"
  have p: "getPaths_reply JNull [(''paths'', JStr ''1''), (''path1'', JStr ''http://a/1'')] = Paths (JStr ''http://a/1'' # [])"
    by code_simp
  have r: "run (getFile ''d'' (JStr ''k'') ''/tmp/f'')
     ([TrackerReply JNull [(''paths'', JStr ''1''), (''path1'', JStr ''http://a/1'')], SinkOpen, HttpResponse, ResData ''abc'' False, SinkDrain True] @
      [GetError (JError ''ETIMEDOUT'')]) = Some (?s, ?e)"
    by code_simp
  have "src_paused ?s \<and> \<not> enabled ?s ResEnd \<and> ResResume \<notin> set ?e \<and> filter is_success ?e = []"
    by (rule drain_after_complete_never_reports [OF p r])
  then show ?thesis
    using p r by blast
qed

section \<open>Download: errors\<close>

text \<open>
  C6 (an error aborts the transfer and is reported with no byte count beside it; the sink
  is closed on every exit path, sink error included) fails at this input: the sink fails
  in the middle of a transfer (the disk is full).
  The \<^verbatim>\<open>error\<close> listener of the write stream reports the error and does nothing else: the
  sink is not closed and the transfer is not aborted. The response goes on, the next chunk
  is written, and at \<^verbatim>\<open>end\<close> the download reports success with a byte count, after the error.
\<close>

theorem sink_error_leaves_sink_open:
  "run (getFile ''d'' (JStr ''k'') ''/tmp/f'')
     [TrackerReply JNull [(''paths'', JStr ''1''), (''path1'', JStr ''http://a/1'')], SinkOpen, HttpResponse, ResData ''abc'' True,
      SinkError (JError ''ENOSPC'')]
     = Some (\<lparr>local = ''/tmp/f'', paths_pending = False, paths = [JStr ''http://a/1''], sink_created = True,
        sink_opened = True, get_issued = True, has_response = True, src_paused = False,
        src_ended = False, bytes_written = 3, paused = False, ticks = 0, crashed = False\<rparr>,
        [Send ''d'' ''GET_PATHS'' [(''key'', JStr ''k''), (''noverify'', JStr ''0'')],
         CreateWriteStream ''/tmp/f'', HttpGet ''http://a/1'', SinkWrite ''abc'',
         Callback [JError ''ENOSPC'']]) \<and>
   run (getFile ''d'' (JStr ''k'') ''/tmp/f'')
     [TrackerReply JNull [(''paths'', JStr ''1''), (''path1'', JStr ''http://a/1'')], SinkOpen, HttpResponse, ResData ''abc'' True,
      SinkError (JError ''ENOSPC''), ResData ''de'' True, ResEnd]
     = Some (\<lparr>local = ''/tmp/f'', paths_pending = False, paths = [JStr ''http://a/1''], sink_created = True,
        sink_opened = True, get_issued = True, has_response = True, src_paused = False,
        src_ended = True, bytes_written = 5, paused = False, ticks = 0, crashed = False\<rparr>,
        [Send ''d'' ''GET_PATHS'' [(''key'', JStr ''k''), (''noverify'', JStr ''0'')],
         CreateWriteStream ''/tmp/f'', HttpGet ''http://a/1'', SinkWrite ''abc'',
         Callback [JError ''ENOSPC''], SinkWrite ''de'', SinkEnd, Callback [JNull, JNum 5]])"
  by code_simp

section \<open>Runs of an upload\<close>

lemma urun_snoc:
  "urun c (evs @ [ev]) =
     (case urun c evs of (s, effs) \<Rightarrow> case ustep s ev of (s', new) \<Rightarrow> (s', effs @ new))"
  by (induction c evs rule: urun.induct) (simp_all split: prod.splits)

lemma open_reply_of_snoc:
  "open_reply_of (evs @ [ev]) =
     (case open_reply_of evs of Some r \<Rightarrow> Some r | None \<Rightarrow> open_reply_of [ev])"
  by (induction evs rule: open_reply_of.induct) simp_all

lemma upload_inv_init:
  "upload_inv name key storage_class [] (fst (storeFile name key storage_class loc))
     (snd (storeFile name key storage_class loc))"
  by (simp add: upload_inv_def storeFile_def)

lemma upload_inv_step:
  assumes "upload_inv name key storage_class evs s effs"
  shows "upload_inv name key storage_class (evs @ [ev]) (fst (ustep s ev)) (effs @ snd (ustep s ev))"
proof (cases ev)
  case (OpenReply err response)
  then show ?thesis
    using assms by (auto simp: upload_inv_def open_reply_of_snoc split: option.splits)
next
  case (StatReply err sz)
  then show ?thesis
    using assms
    by (cases "obj_get (open_response s) ''path''")
      (auto simp: upload_inv_def open_reply_of_snoc split: option.splits)
next
  case (RequestError e)
  then show ?thesis
    using assms by (auto simp: upload_inv_def open_reply_of_snoc split: option.splits)
next
  case SourceEnd
  then show ?thesis
    using assms by (auto simp: upload_inv_def open_reply_of_snoc split: option.splits)
next
  case PutResponse
  then show ?thesis
    using assms by (auto simp: upload_inv_def open_reply_of_snoc split: option.splits)
next
  case (CloseReply err response)
  show ?thesis
  proof (cases "close_pending s")
    case False
    then show ?thesis
      using assms CloseReply
      by (simp add: upload_inv_def open_reply_of_snoc split: option.splits)
  next
    case True
    then have f: "\<not> open_pending s" "\<not> stat_pending s" "\<not> source_active s"
      and o: "open_reply_of evs = Some (open_response s)"
      and c: "filter is_close_send effs =
            [Send name ''CREATE_CLOSE'' (close_args key storage_class (open_response s))]"
      and n: "u_name s = name" "u_key s = key" "u_class s = storage_class"
      using assms by (auto simp: upload_inv_def)
    show ?thesis
      using True f o c n CloseReply by (simp add: upload_inv_def open_reply_of_snoc)
  qed
qed

lemma upload_inv_run:
  "upload_inv name key storage_class evs
     (fst (urun (storeFile name key storage_class loc) evs))
     (snd (urun (storeFile name key storage_class loc) evs))"
proof (induction evs rule: rev_induct)
  case Nil
  show ?case
    using upload_inv_init [of name key storage_class loc] by simp
next
  case (snoc ev evs)
  let ?c = "urun (storeFile name key storage_class loc) evs"
  have "urun (storeFile name key storage_class loc) (evs @ [ev])
      = (fst (ustep (fst ?c) ev), snd ?c @ snd (ustep (fst ?c) ev))"
    by (simp add: urun_snoc split: prod.splits)
  then show ?case
    using upload_inv_step [OF snoc.IH, of ev] by simp
qed

lemma urun_ignores_put_response:
  "urun c (filter (\<lambda>ev. ev \<noteq> PutResponse) evs) = urun c evs"
proof (induction evs arbitrary: c)
  case Nil
  show ?case by simp
next
  case (Cons ev evs)
  obtain s effs where c: "c = (s, effs)"
    by (cases c)
  show ?case
  proof (cases "ev = PutResponse")
    case True
    then show ?thesis
      using Cons.IH [of "(s, effs)"] c by simp
  next
    case False
    then show ?thesis
      using Cons.IH c by (simp split: prod.splits)
  qed
qed

text \<open>
  C7: in every run of an upload, \<^verbatim>\<open>CREATE_CLOSE\<close> is sent at most once; and whenever the
  upload reports success, it has been sent exactly once, with the original key and storage
  class and with the \<^verbatim>\<open>devid\<close>, \<^verbatim>\<open>fid\<close> and \<^verbatim>\<open>path\<close> of the response that \<^verbatim>\<open>CREATE_OPEN\<close>
  received, unchanged.
\<close>

theorem close_echoes_open:
  "length (filter is_close_send (snd (urun (storeFile name key storage_class loc) evs))) \<le> 1 \<and>
   (Callback [JNull, v] \<in> set (snd (urun (storeFile name key storage_class loc) evs)) \<longrightarrow>
      (\<exists>response. open_reply_of evs = Some response \<and>
         filter is_close_send (snd (urun (storeFile name key storage_class loc) evs)) =
           [Send name ''CREATE_CLOSE''
              [(''key'', key), (''class'', storage_class),
               (''devid'', obj_get response ''devid''),
               (''fid'', obj_get response ''fid''),
               (''path'', obj_get response ''path'')]]))"
proof (intro conjI impI)
  let ?c = "urun (storeFile name key storage_class loc) evs"
  note inv = upload_inv_run [of name key storage_class evs loc]
  show "length (filter is_close_send (snd ?c)) \<le> 1"
    using inv by (simp add: upload_inv_def)
  assume "Callback [JNull, v] \<in> set (snd ?c)"
  then have "filter is_success (snd ?c) \<noteq> []"
    by (auto simp: filter_empty_conv intro!: bexI [of _ "Callback [JNull, v]"])
  then have "open_reply_of evs = Some (open_response (fst ?c)) \<and>
      filter is_close_send (snd ?c) =
        [Send name ''CREATE_CLOSE'' (close_args key storage_class (open_response (fst ?c)))]"
    using inv by (simp add: upload_inv_def)
  then show "\<exists>response. open_reply_of evs = Some response \<and>
         filter is_close_send (snd ?c) =
           [Send name ''CREATE_CLOSE''
              [(''key'', key), (''class'', storage_class),
               (''devid'', obj_get response ''devid''),
               (''fid'', obj_get response ''fid''),
               (''path'', obj_get response ''path'')]]"
    by (auto simp: close_args_def)
qed

text \<open>A successful upload of a file of 3 bytes.\<close>

theorem close_echoes_open_witness:
  "Callback [JNull, JNum 3] \<in> set (snd (urun (storeFile ''d'' (JStr ''k'') (JStr ''c'') ''/tmp/f'')
      [OpenReply JNull [(''devid'', JStr ''95''), (''fid'', JStr ''504917521''), (''path'', JStr ''http://127.0.0.1:7500/dev95/0/504/917/0504917521.fid'')], StatReply JNull 3, SourceEnd, PutResponse, CloseReply JNull []])) \<and>
   open_reply_of
      [OpenReply JNull [(''devid'', JStr ''95''), (''fid'', JStr ''504917521''), (''path'', JStr ''http://127.0.0.1:7500/dev95/0/504/917/0504917521.fid'')], StatReply JNull 3, SourceEnd, PutResponse, CloseReply JNull []]
     = Some [(''devid'', JStr ''95''), (''fid'', JStr ''504917521''), (''path'', JStr ''http://127.0.0.1:7500/dev95/0/504/917/0504917521.fid'')] \<and>
   filter is_close_send (snd (urun (storeFile ''d'' (JStr ''k'') (JStr ''c'') ''/tmp/f'')
      [OpenReply JNull [(''devid'', JStr ''95''), (''fid'', JStr ''504917521''), (''path'', JStr ''http://127.0.0.1:7500/dev95/0/504/917/0504917521.fid'')], StatReply JNull 3, SourceEnd, PutResponse, CloseReply JNull []]))
     = [Send ''d'' ''CREATE_CLOSE''
          [(''key'', JStr ''k''), (''class'', JStr ''c''), (''devid'', JStr ''95''),
           (''fid'', JStr ''504917521''),
           (''path'', JStr ''http://127.0.0.1:7500/dev95/0/504/917/0504917521.fid'')]]"
proof -
  let ?evs = "[OpenReply JNull [(''devid'', JStr ''95''), (''fid'', JStr ''504917521''), (''path'', JStr ''http://127.0.0.1:7500/dev95/0/504/917/0504917521.fid'')], StatReply JNull 3, SourceEnd, PutResponse, CloseReply JNull []]"
  have s: "Callback [JNull, JNum 3] \<in> set (snd (urun (storeFile ''d'' (JStr ''k'') (JStr ''c'') ''/tmp/f'') ?evs))"
    by code_simp
  have o: "open_reply_of ?evs = Some [(''devid'', JStr ''95''), (''fid'', JStr ''504917521''), (''path'', JStr ''http://127.0.0.1:7500/dev95/0/504/917/0504917521.fid'')]"
    by simp
  from close_echoes_open [of "''d''" "JStr ''k''" "JStr ''c''" "''/tmp/f''" ?evs "JNum 3"] s
  obtain response where "open_reply_of ?evs = Some response"
    and c: "filter is_close_send (snd (urun (storeFile ''d'' (JStr ''k'') (JStr ''c'') ''/tmp/f'') ?evs)) =
           [Send ''d'' ''CREATE_CLOSE''
              [(''key'', JStr ''k''), (''class'', JStr ''c''),
               (''devid'', obj_get response ''devid''),
               (''fid'', obj_get response ''fid''),
               (''path'', obj_get response ''path'')]]"
    by blast
  then have "response = [(''devid'', JStr ''95''), (''fid'', JStr ''504917521''), (''path'', JStr ''http://127.0.0.1:7500/dev95/0/504/917/0504917521.fid'')]"
    using o by simp
  then show ?thesis
    using s o c by (simp add: obj_get_def)
qed

text \<open>
  C2, as the spec states it: \<^verbatim>\<open>CREATE_CLOSE\<close> is sent only after the storage node has
  acknowledged the PUT. In this run the storage node has not answered, and the request is
  sent all the same.
\<close>

theorem close_sent_without_acknowledgement:
  "PutResponse \<notin> set [OpenReply JNull [(''devid'', JStr ''95''), (''fid'', JStr ''504917521''), (''path'', JStr ''http://127.0.0.1:7500/dev95/0/504/917/0504917521.fid'')], StatReply JNull 3, SourceEnd] \<and>
   snd (urun (storeFile ''d'' (JStr ''k'') (JStr ''c'') ''/tmp/f'') [OpenReply JNull [(''devid'', JStr ''95''), (''fid'', JStr ''504917521''), (''path'', JStr ''http://127.0.0.1:7500/dev95/0/504/917/0504917521.fid'')], StatReply JNull 3, SourceEnd])
     = [Send ''d'' ''CREATE_OPEN'' [(''key'', JStr ''k''), (''class'', JStr ''c'')],
        Stat ''/tmp/f'',
        HttpPut ''http://127.0.0.1:7500/dev95/0/504/917/0504917521.fid'' 3,
        CreateReadStream ''/tmp/f'', Pipe, RequestEnd,
        Send ''d'' ''CREATE_CLOSE''
          [(''key'', JStr ''k''), (''class'', JStr ''c''), (''devid'', JStr ''95''),
           (''fid'', JStr ''504917521''),
           (''path'', JStr ''http://127.0.0.1:7500/dev95/0/504/917/0504917521.fid'')]]"
  by code_simp

text \<open>
  C2, amended: when the source is exhausted, the \<^verbatim>\<open>end\<close> listener finalizes the request body
  and sends \<^verbatim>\<open>CREATE_CLOSE\<close> to the tracker in the same run, right after \<^verbatim>\<open>request.end()\<close>.
  The answer of the storage node plays no part: \<^verbatim>\<open>storeFile\<close> does not listen for it, and
  a run with the answers removed does the same as the run with them.
\<close>

theorem close_sent_with_request_end:
  "(source_active s \<longrightarrow>
      snd (ustep s SourceEnd) =
        [RequestEnd,
         Send (u_name s) ''CREATE_CLOSE'' (close_args (u_key s) (u_class s) (open_response s))]) \<and>
   ustep s PutResponse = (s, []) \<and>
   urun c (filter (\<lambda>ev. ev \<noteq> PutResponse) evs) = urun c evs"
  by (simp add: urun_ignores_put_response)

text \<open>The upload after \<^verbatim>\<open>CREATE_OPEN\<close> and \<^verbatim>\<open>fs.stat\<close> have answered.\<close>

theorem close_sent_with_request_end_witness:
  "source_active (fst (urun (storeFile ''d'' (JStr ''k'') (JStr ''c'') ''/tmp/f'') [OpenReply JNull [(''devid'', JStr ''95''), (''fid'', JStr ''504917521''), (''path'', JStr ''http://127.0.0.1:7500/dev95/0/504/917/0504917521.fid'')], StatReply JNull 3])) \<and>
   snd (ustep (fst (urun (storeFile ''d'' (JStr ''k'') (JStr ''c'') ''/tmp/f'') [OpenReply JNull [(''devid'', JStr ''95''), (''fid'', JStr ''504917521''), (''path'', JStr ''http://127.0.0.1:7500/dev95/0/504/917/0504917521.fid'')], StatReply JNull 3])) SourceEnd)
     = [RequestEnd,
        Send ''d'' ''CREATE_CLOSE''
          [(''key'', JStr ''k''), (''class'', JStr ''c''), (''devid'', JStr ''95''),
           (''fid'', JStr ''504917521''),
           (''path'', JStr ''http://127.0.0.1:7500/dev95/0/504/917/0504917521.fid'')]]"
proof -
  let ?s = "fst (urun (storeFile ''d'' (JStr ''k'') (JStr ''c'') ''/tmp/f'') [OpenReply JNull [(''devid'', JStr ''95''), (''fid'', JStr ''504917521''), (''path'', JStr ''http://127.0.0.1:7500/dev95/0/504/917/0504917521.fid'')], StatReply JNull 3])"
  have a: "source_active ?s"
    by code_simp
  have v: "u_name ?s = ''d''" "u_key ?s = JStr ''k''" "u_class ?s = JStr ''c''"
    "open_response ?s = [(''devid'', JStr ''95''), (''fid'', JStr ''504917521''), (''path'', JStr ''http://127.0.0.1:7500/dev95/0/504/917/0504917521.fid'')]"
    by code_simp+
  have "snd (ustep ?s SourceEnd) =
        [RequestEnd,
         Send (u_name ?s) ''CREATE_CLOSE'' (close_args (u_key ?s) (u_class ?s) (open_response ?s))]"
    using close_sent_with_request_end [of ?s] a by blast
  then show ?thesis
    using a by (simp only: v) (simp add: close_args_def obj_get_def)
qed

end
